theory Spec2Isabelle
  imports Main "HOL-Library.Sublist"
begin

section \<open>Engine.js: the orchestrator's \<open>run\<close>\<close>

text \<open>
  The source is one asynchronous function, \<open>run(args)\<close>, that calls collaborators of the
  repository (the configuration validator and generator, the packager watcher, the packager
  runner, the two platform runners, the logger) and the host (\<open>process.exit\<close>,
  \<open>Promise.all\<close>). The model is a state-passing embedding: every call with an effect
  appends an event to a trace, the variable \<open>packagerProcess\<close> is a field of the state, and
  control leaves a statement normally, by a thrown value, by \<open>process.exit\<close>, or not at all.
\<close>

subsection \<open>Data\<close>

type_synonym error = string

text \<open>The parsed arguments, as \<open>parseArgs\<close> declares them.\<close>

record args =
  run_ios :: bool
  run_android :: bool
  disable_uninstall :: bool
  native_build_type :: string
  custom_config_json :: "string option"
  ios_devices :: "string option"
  ios_udids :: "string option"
  no_packager :: bool
  reset_cache :: bool
  packager_port :: string
  force_localhost :: bool

text \<open>A synchronous call of a collaborator returns or throws.\<close>

datatype call = Returned | Threw error

text \<open>An awaited promise is fulfilled with a value, is rejected, or stays pending.\<close>

datatype 'a awaited = Fulfilled 'a | Rejected error | Pending

text \<open>
  The promise of a concurrent branch, with the logical instant at which it settles
  (instants only order the settlements of the branches of one fan-out).
\<close>

datatype settle = Fulfils nat | Rejects nat error | Never

text \<open>
  What \<open>new AsyncPackagerRunner().run(...)\<close> hands back, as far as the test
  \<open>packagerProcess && typeof packagerProcess.kill === 'function'\<close> can tell: a falsy value,
  a value without a \<open>kill\<close> function, or a handle with one.
\<close>

datatype handle = Undefined | NotKillable | Process

datatype platform = IOS | Android

text \<open>
  The collaborators, which are not part of the source file, are parameters of the model:
  one field for the outcome of each of their calls that can fail. The validator and the
  generator are pass/fail gates, called synchronously; \<open>validateDown\<close> is awaited; each
  platform runner's \<open>run\<close> returns a promise, which the branch awaits; \<open>kill\<close> may throw.
  The other calls return: the constructors, \<open>startWatchingUntilUp\<close> (not awaited; it
  starts the polling, and a packager that never comes up shows in the runners that wait
  for it), \<open>AsyncPackagerRunner.run\<close> (it hands back the process handle) and the logger.
  The record of arguments is the object \<open>parseArgs\<close> returns.
\<close>

record env =
  dirname :: string
  cwd :: string
  simulator :: string
  validator :: call
  generator :: call
  validateDown :: "bool awaited"
  spawned :: handle
  ios_runner :: settle
  android_runner :: settle
  kill :: call

datatype event =
    LogInfo string
  | LogError string "error option"
  | ValidatorRun
  | GenerateConfigurationRun string string bool bool
  | NewPackagerWatcher string bool
  | ValidateDown
  | StartWatchingUntilUp
  | PackagerRun string bool string
  | IosRun "string option" "string option" string string bool string
  | AndroidRun string string bool
  | RunnerSettled platform "error option"
  | Kill
  | ProcessExit nat

record state =
  trace :: "event list"
  packagerProcess :: handle

datatype flow = Normal | Thrown error | Exited nat | Suspended

type_synonym stmt = "state \<Rightarrow> flow \<times> state"

definition init :: state where
  "init = \<lparr>trace = [], packagerProcess = Undefined\<rparr>"

subsection \<open>Statements\<close>

definition emit :: "event \<Rightarrow> stmt" where
  "emit ev st = (Normal, st\<lparr>trace := trace st @ [ev]\<rparr>)"

text \<open>Statements in sequence: the first that does not end normally ends the sequence.\<close>

primrec seq :: "stmt list \<Rightarrow> stmt" where
  "seq [] st = (Normal, st)"
| "seq (c # cs) st =
     (case c st of (f, st') \<Rightarrow> (case f of Normal \<Rightarrow> seq cs st' | _ \<Rightarrow> (f, st')))"

text \<open>\<open>try { body } catch (e) { handler e }\<close>: only a thrown value reaches the handler.\<close>

definition try_catch :: "stmt \<Rightarrow> (error \<Rightarrow> stmt) \<Rightarrow> stmt" where
  "try_catch body handler st =
     (case body st of (f, st') \<Rightarrow> (case f of Thrown e \<Rightarrow> handler e st' | _ \<Rightarrow> (f, st')))"

definition if_then :: "bool \<Rightarrow> stmt \<Rightarrow> stmt" where
  "if_then b c st = (if b then c st else (Normal, st))"

text \<open>A synchronous call: its event, then its outcome.\<close>

definition invoke :: "event \<Rightarrow> call \<Rightarrow> stmt" where
  "invoke ev r st =
     (case r of Returned \<Rightarrow> Normal | Threw e \<Rightarrow> Thrown e, st\<lparr>trace := trace st @ [ev]\<rparr>)"

text \<open>\<open>Logger.info\<close> and \<open>Logger.error\<close> write a line and return.\<close>

definition log_info :: "string \<Rightarrow> stmt" where
  "log_info m = emit (LogInfo m)"

definition log_error :: "string \<Rightarrow> error option \<Rightarrow> stmt" where
  "log_error m e = emit (LogError m e)"

text \<open>\<open>process.exit(code)\<close> ends the process: nothing after it runs.\<close>

definition process_exit :: "nat \<Rightarrow> stmt" where
  "process_exit c st = (Exited c, st\<lparr>trace := trace st @ [ProcessExit c]\<rparr>)"

subsection \<open>The body of \<open>run\<close>, line by line\<close>

definition engineDir :: "env \<Rightarrow> string" where
  "engineDir e = dirname e @ ''/../../..''"

text \<open>\<open>args.custom_config_json || `${process.cwd()}/package.json`\<close>: a missing or empty
  path falls back to the default.\<close>

definition package_json_path :: "args \<Rightarrow> env \<Rightarrow> string" where
  "package_json_path a e =
     (case custom_config_json a of
        None \<Rightarrow> cwd e @ ''/package.json''
      | Some p \<Rightarrow> if p = [] then cwd e @ ''/package.json'' else p)"

definition validate_step :: "env \<Rightarrow> stmt" where
  "validate_step e =
     seq [log_info ''Validating React Native CLI configuration...'',
          invoke ValidatorRun (validator e)]"

definition generate_step :: "args \<Rightarrow> env \<Rightarrow> stmt" where
  "generate_step a e =
     seq [log_info ''Generating project configuration...'',
          invoke (GenerateConfigurationRun (engineDir e @ ''/../..'') (package_json_path a e)
                    False (force_localhost a))
                 (generator e)]"

definition port_in_use_message :: "args \<Rightarrow> string" where
  "port_in_use_message a =
     ''A packager is already running on port '' @ packager_port a @ ''. '' @
     ''Use the -P option to bypass starting a new packager or stop the existing one.''"

text \<open>\<open>if (!(await packagerWatcher.validateDown())) { Logger.error(...); process.exit(1); }\<close>\<close>

definition validateDown_gate :: "args \<Rightarrow> env \<Rightarrow> stmt" where
  "validateDown_gate a e st =
     (case emit ValidateDown st of (_, st') \<Rightarrow>
        (case validateDown e of
           Rejected x \<Rightarrow> (Thrown x, st')
         | Pending \<Rightarrow> (Suspended, st')
         | Fulfilled down \<Rightarrow>
             if_then (\<not> down)
               (seq [log_error (port_in_use_message a) None, process_exit 1]) st'))"

text \<open>\<open>if (!args.no_packager) { ...; packagerProcess = new AsyncPackagerRunner().run(...); }\<close>\<close>

definition assign_packagerProcess :: "args \<Rightarrow> env \<Rightarrow> stmt" where
  "assign_packagerProcess a e st =
     (Normal, st\<lparr>trace := trace st @ [PackagerRun (engineDir e) (reset_cache a) (packager_port a)],
                  packagerProcess := spawned e\<rparr>)"

definition packager_step :: "args \<Rightarrow> env \<Rightarrow> stmt" where
  "packager_step a e =
     if_then (\<not> no_packager a)
       (seq [log_info ''Starting Metro Bundler...'', assign_packagerProcess a e])"

subsection \<open>The fan-out\<close>

definition launched :: "args \<Rightarrow> platform \<Rightarrow> bool" where
  "launched a p = (case p of IOS \<Rightarrow> run_ios a | Android \<Rightarrow> run_android a)"

definition runner :: "env \<Rightarrow> platform \<Rightarrow> settle" where
  "runner e p = (case p of IOS \<Rightarrow> ios_runner e | Android \<Rightarrow> android_runner e)"

text \<open>
  Each element of the array given to \<open>Promise.all\<close> is the promise of an \<open>async\<close> arrow
  function that is called at once. With its flag unset the function does nothing and its
  promise is fulfilled at once. With the flag set it constructs the runner, calls \<open>run\<close>
  and awaits the result; in the \<open>catch\<close> a rejection is logged and thrown again, so the
  promise of the branch is rejected with the reason caught.
\<close>

definition branch_promise :: "bool \<Rightarrow> settle \<Rightarrow> settle" where
  "branch_promise flag r =
     (if flag then (case r of Fulfils t \<Rightarrow> Fulfils t
                            | Rejects t error \<Rightarrow> Rejects t error
                            | Never \<Rightarrow> Never)
      else Fulfils 0)"

definition branch :: "args \<Rightarrow> env \<Rightarrow> platform \<Rightarrow> settle" where
  "branch a e p = branch_promise (launched a p) (runner e p)"

definition branch_label :: "platform \<Rightarrow> string" where
  "branch_label p = (case p of IOS \<Rightarrow> ''Error running iOS tasks:''
                             | Android \<Rightarrow> ''Error running Android tasks:'')"

text \<open>What a launched branch does when its runner settles, with the instant.\<close>

definition branch_settlement :: "args \<Rightarrow> env \<Rightarrow> platform \<Rightarrow> (nat \<times> event list) list" where
  "branch_settlement a e p =
     (if launched a p then
        (case runner e p of
           Fulfils t \<Rightarrow> [(t, [RunnerSettled p None])]
         | Rejects t error \<Rightarrow>
             [(t, [RunnerSettled p (Some error), LogError (branch_label p) (Some error)])]
         | Never \<Rightarrow> [])
      else [])"

text \<open>The calls made when the array is built: the iOS function first, then the Android one.\<close>

definition branch_start :: "args \<Rightarrow> env \<Rightarrow> event list" where
  "branch_start a e =
     (if run_ios a
      then [IosRun (ios_devices a) (ios_udids a) (engineDir e) (native_build_type a)
              (disable_uninstall a) (simulator e)]
      else []) @
     (if run_android a
      then [AndroidRun (engineDir e) (native_build_type a) (disable_uninstall a)]
      else [])"

text \<open>
  \<open>Promise.all\<close> (ECMAScript): the result is rejected as soon as one element is rejected,
  with that element's reason; it is fulfilled once every element is fulfilled; otherwise it
  stays pending. Of two rejections at the same instant the earlier element's comes first.
\<close>

fun first_rejection :: "settle list \<Rightarrow> (nat \<times> error) option" where
  "first_rejection [] = None"
| "first_rejection (Rejects t x # ps) =
     (case first_rejection ps of
        None \<Rightarrow> Some (t, x)
      | Some (t', x') \<Rightarrow> if t \<le> t' then Some (t, x) else Some (t', x'))"
| "first_rejection (Fulfils t # ps) = first_rejection ps"
| "first_rejection (Never # ps) = first_rejection ps"

fun last_fulfilment :: "settle list \<Rightarrow> nat option" where
  "last_fulfilment [] = Some 0"
| "last_fulfilment (Fulfils t # ps) =
     (case last_fulfilment ps of None \<Rightarrow> None | Some t' \<Rightarrow> Some (max t t'))"
| "last_fulfilment (Rejects t x # ps) = None"
| "last_fulfilment (Never # ps) = None"

definition promise_all :: "settle list \<Rightarrow> settle" where
  "promise_all ps =
     (case first_rejection ps of
        Some (t, x) \<Rightarrow> Rejects t x
      | None \<Rightarrow> (case last_fulfilment ps of Some t \<Rightarrow> Fulfils t | None \<Rightarrow> Never))"

definition fan_out_join :: "args \<Rightarrow> env \<Rightarrow> settle" where
  "fan_out_join a e = promise_all [branch a e IOS, branch a e Android]"

text \<open>
  The settlements that have happened when the code after \<open>await Promise.all(...)\<close> resumes:
  those up to the instant of the rejection when the join is rejected, all of them when it
  is fulfilled (and all that ever happen when it stays pending).
\<close>

definition seen_by :: "settle \<Rightarrow> nat \<Rightarrow> bool" where
  "seen_by joined t = (case joined of Rejects T _ \<Rightarrow> t \<le> T | _ \<Rightarrow> True)"

definition fan_out_seen :: "args \<Rightarrow> env \<Rightarrow> event list" where
  "fan_out_seen a e =
     concat (map snd (filter (\<lambda>s. seen_by (fan_out_join a e) (fst s))
                        (sort_key fst (branch_settlement a e IOS @ branch_settlement a e Android))))"

definition await :: "settle \<Rightarrow> flow" where
  "await p = (case p of Fulfils _ \<Rightarrow> Normal | Rejects _ x \<Rightarrow> Thrown x | Never \<Rightarrow> Suspended)"

definition fan_out :: "args \<Rightarrow> env \<Rightarrow> stmt" where
  "fan_out a e st =
     (await (fan_out_join a e), st\<lparr>trace := trace st @ branch_start a e @ fan_out_seen a e\<rparr>)"

subsection \<open>\<open>run\<close>\<close>

definition try_body :: "args \<Rightarrow> env \<Rightarrow> stmt" where
  "try_body a e =
     seq [validate_step e,
          generate_step a e,
          emit (NewPackagerWatcher (packager_port a) (no_packager a)),
          validateDown_gate a e,
          emit StartWatchingUntilUp,
          packager_step a e,
          log_info ''Running platform-specific tasks...'',
          fan_out a e]"

definition stop_packager :: "env \<Rightarrow> stmt" where
  "stop_packager e st =
     (if packagerProcess st = Process
      then try_catch
             (seq [log_info ''Stopping the Metro Bundler process...'', invoke Kill (kill e)])
             (\<lambda>killError. log_error ''Failed to stop the Metro Bundler process:'' (Some killError))
             st
      else log_info ''No Metro Bundler process to stop.'' st)"

definition catch_block :: "env \<Rightarrow> error \<Rightarrow> stmt" where
  "catch_block e ex =
     seq [log_error ''An error occurred:'' (Some ex), stop_packager e, process_exit 0]"

definition run :: "args \<Rightarrow> env \<Rightarrow> flow \<times> state" where
  "run a e = try_catch (try_body a e) (catch_block e) init"

definition run_flow :: "args \<Rightarrow> env \<Rightarrow> flow" where
  "run_flow a e = fst (run a e)"

definition run_trace :: "args \<Rightarrow> env \<Rightarrow> event list" where
  "run_trace a e = trace (snd (run a e))"


subsection \<open>Reading a run\<close>

definition gates_pass :: "env \<Rightarrow> bool" where
  "gates_pass e =
     (validator e = Returned \<and> generator e = Returned \<and> validateDown e = Fulfilled True)"

fun is_thrown :: "flow \<Rightarrow> bool" where
  "is_thrown (Thrown x) = True"
| "is_thrown Normal = False"
| "is_thrown (Exited c) = False"
| "is_thrown Suspended = False"

text \<open>The top-level \<open>catch\<close> is entered when the body of the \<open>try\<close> throws.\<close>

definition reaches_catch :: "args \<Rightarrow> env \<Rightarrow> bool" where
  "reaches_catch a e = is_thrown (fst (try_body a e init))"

fun exits_nonzero :: "flow \<Rightarrow> bool" where
  "exits_nonzero (Exited c) = (c \<noteq> 0)"
| "exits_nonzero Normal = False"
| "exits_nonzero (Thrown x) = False"
| "exits_nonzero Suspended = False"


fun is_kill :: "event \<Rightarrow> bool" where
  "is_kill Kill = True"
| "is_kill _ = False"

fun is_packager_run :: "event \<Rightarrow> bool" where
  "is_packager_run (PackagerRun d r p) = True"
| "is_packager_run _ = False"

fun is_runner_run :: "event \<Rightarrow> bool" where
  "is_runner_run (IosRun d u r b s m) = True"
| "is_runner_run (AndroidRun r b s) = True"
| "is_runner_run _ = False"

fun is_new_watcher :: "event \<Rightarrow> bool" where
  "is_new_watcher (NewPackagerWatcher p n) = True"
| "is_new_watcher _ = False"

fun is_start_watching :: "event \<Rightarrow> bool" where
  "is_start_watching StartWatchingUntilUp = True"
| "is_start_watching _ = False"

text \<open>The first statement of the top-level \<open>catch\<close>.\<close>

fun is_catch_entry :: "event \<Rightarrow> bool" where
  "is_catch_entry (LogError m x) = (m = ''An error occurred:'')"
| "is_catch_entry _ = False"

fun is_settled :: "platform \<Rightarrow> event \<Rightarrow> bool" where
  "is_settled p (RunnerSettled q x) = (p = q)"
| "is_settled p _ = False"

text \<open>A branch has settled before cleanup when its settlement is in the trace before the
  top-level \<open>catch\<close> is entered.\<close>

definition settled_before_cleanup :: "platform \<Rightarrow> event list \<Rightarrow> bool" where
  "settled_before_cleanup p tr =
     list_ex (is_settled p) (takeWhile (\<lambda>ev. \<not> is_catch_entry ev) tr)"

fun rejects :: "settle \<Rightarrow> bool" where
  "rejects (Rejects t x) = True"
| "rejects (Fulfils t) = False"
| "rejects Never = False"

fun settles_by :: "nat \<Rightarrow> settle \<Rightarrow> bool" where
  "settles_by T (Fulfils t) = (t \<le> T)"
| "settles_by T (Rejects t x) = (t \<le> T)"
| "settles_by T Never = False"

fun other :: "platform \<Rightarrow> platform" where
  "other IOS = Android"
| "other Android = IOS"

text \<open>The steps of a run: the calls of the collaborators that the orchestrator sequences.\<close>

fun is_step :: "event \<Rightarrow> bool" where
  "is_step (LogInfo m) = False"
| "is_step (LogError m x) = False"
| "is_step (RunnerSettled p x) = False"
| "is_step Kill = False"
| "is_step (ProcessExit c) = False"
| "is_step _ = True"

definition steps :: "event list \<Rightarrow> event list" where
  "steps tr = filter is_step tr"

text \<open>The steps in the order of the source text, as far as the arguments ask for them.\<close>

definition plan :: "args \<Rightarrow> env \<Rightarrow> event list" where
  "plan a e =
     [ValidatorRun,
      GenerateConfigurationRun (engineDir e @ ''/../..'') (package_json_path a e) False
        (force_localhost a),
      NewPackagerWatcher (packager_port a) (no_packager a),
      ValidateDown,
      StartWatchingUntilUp] @
     (if no_packager a then [] else [PackagerRun (engineDir e) (reset_cache a) (packager_port a)]) @
     branch_start a e"

text \<open>How many steps of the plan a run gets to: the first gate that fails is the last step.\<close>

definition reached :: "args \<Rightarrow> env \<Rightarrow> nat" where
  "reached a e =
     (if validator e \<noteq> Returned then 1
      else if generator e \<noteq> Returned then 2
      else if validateDown e \<noteq> Fulfilled True then 4
      else length (plan a e))"


fun rejects_before :: "nat \<Rightarrow> settle \<Rightarrow> bool" where
  "rejects_before T (Rejects t x) = (t < T)"
| "rejects_before T (Fulfils t) = False"
| "rejects_before T Never = False"

subsection \<open>The trace of a run, piece by piece\<close>

text \<open>What a run has logged and called when it reaches the fan-out.\<close>

definition prelude :: "args \<Rightarrow> env \<Rightarrow> event list" where
  "prelude a e =
     [LogInfo ''Validating React Native CLI configuration...'',
      ValidatorRun,
      LogInfo ''Generating project configuration...'',
      GenerateConfigurationRun (engineDir e @ ''/../..'') (package_json_path a e) False
        (force_localhost a),
      NewPackagerWatcher (packager_port a) (no_packager a),
      ValidateDown,
      StartWatchingUntilUp] @
     (if no_packager a then []
      else [LogInfo ''Starting Metro Bundler...'',
            PackagerRun (engineDir e) (reset_cache a) (packager_port a)]) @
     [LogInfo ''Running platform-specific tasks...'']"

text \<open>What the top-level \<open>catch\<close> logs and calls between its first line and \<open>process.exit\<close>,
  given the value of \<open>packagerProcess\<close>.\<close>

definition cleanup :: "env \<Rightarrow> handle \<Rightarrow> event list" where
  "cleanup e h =
     (if h = Process
      then [LogInfo ''Stopping the Metro Bundler process...'', Kill] @
           (case kill e of Returned \<Rightarrow> []
            | Threw k \<Rightarrow> [LogError ''Failed to stop the Metro Bundler process:'' (Some k)])
      else [LogInfo ''No Metro Bundler process to stop.''])"


text \<open>Everything the top-level \<open>catch\<close> logs and calls.\<close>

definition catch_events :: "env \<Rightarrow> error \<Rightarrow> handle \<Rightarrow> event list" where
  "catch_events e x h = [LogError ''An error occurred:'' (Some x)] @ cleanup e h @ [ProcessExit 0]"

subsection \<open>Sample runs\<close>

definition both_platforms :: args where
  "both_platforms =
     \<lparr>run_ios = True, run_android = True, disable_uninstall = False,
      native_build_type = ''dev'', custom_config_json = None, ios_devices = None,
      ios_udids = None, no_packager = False, reset_cache = True, packager_port = ''8081'',
      force_localhost = False\<rparr>"

definition all_well :: env where
  "all_well =
     \<lparr>dirname = ''/engine/tools/engine_cli/src'', cwd = ''/app'', simulator = ''simulator'',
      validator = Returned, generator = Returned, validateDown = Fulfilled True,
      spawned = Process, ios_runner = Fulfils 3, android_runner = Fulfils 5, kill = Returned\<rparr>"

definition ios_fails_first :: env where
  "ios_fails_first = all_well\<lparr>ios_runner := Rejects 1 ''no simulator''\<rparr>"

definition invalid_config :: env where
  "invalid_config = all_well\<lparr>validator := Threw ''invalid react-native.config.js''\<rparr>"

definition port_taken :: env where
  "port_taken = all_well\<lparr>validateDown := Fulfilled False\<rparr>"


section \<open>Properties\<close>

subsection \<open>The body of the \<open>try\<close>, case by case\<close>

lemmas stmt_defs = emit_def try_catch_def if_then_def invoke_def log_info_def log_error_def
  process_exit_def

lemma try_body_validator_throws:
  "validator e = Threw x \<Longrightarrow>
   try_body a e init =
     (Thrown x, \<lparr>trace = [LogInfo ''Validating React Native CLI configuration...'', ValidatorRun],
                 packagerProcess = Undefined\<rparr>)"
  by (simp add: try_body_def validate_step_def init_def stmt_defs)

lemma try_body_generator_throws:
  "validator e = Returned \<Longrightarrow> generator e = Threw x \<Longrightarrow>
   try_body a e init =
     (Thrown x, \<lparr>trace = take 4 (prelude a e), packagerProcess = Undefined\<rparr>)"
  by (simp add: try_body_def validate_step_def generate_step_def init_def stmt_defs prelude_def)

lemma try_body_probe_rejected:
  "validator e = Returned \<Longrightarrow> generator e = Returned \<Longrightarrow> validateDown e = Rejected x \<Longrightarrow>
   try_body a e init =
     (Thrown x, \<lparr>trace = take 6 (prelude a e), packagerProcess = Undefined\<rparr>)"
  by (simp add: try_body_def validate_step_def generate_step_def validateDown_gate_def init_def
      stmt_defs prelude_def)

lemma try_body_probe_pending:
  "validator e = Returned \<Longrightarrow> generator e = Returned \<Longrightarrow> validateDown e = Pending \<Longrightarrow>
   try_body a e init =
     (Suspended, \<lparr>trace = take 6 (prelude a e), packagerProcess = Undefined\<rparr>)"
  by (simp add: try_body_def validate_step_def generate_step_def validateDown_gate_def init_def
      stmt_defs prelude_def)

lemma try_body_port_in_use:
  "validator e = Returned \<Longrightarrow> generator e = Returned \<Longrightarrow> validateDown e = Fulfilled False \<Longrightarrow>
   try_body a e init =
     (Exited 1, \<lparr>trace = take 6 (prelude a e) @
                           [LogError (port_in_use_message a) None, ProcessExit 1],
                 packagerProcess = Undefined\<rparr>)"
  by (simp add: try_body_def validate_step_def generate_step_def validateDown_gate_def init_def
      stmt_defs prelude_def)

lemma try_body_gates_pass:
  "gates_pass e \<Longrightarrow>
   try_body a e init =
     (await (fan_out_join a e),
      \<lparr>trace = prelude a e @ branch_start a e @ fan_out_seen a e,
        packagerProcess = (if no_packager a then Undefined else spawned e)\<rparr>)"
  by (cases "await (fan_out_join a e)")
     (simp_all add: gates_pass_def try_body_def validate_step_def generate_step_def
      validateDown_gate_def packager_step_def assign_packagerProcess_def fan_out_def init_def
      stmt_defs prelude_def)

lemma catch_block_exits:
  "catch_block e x st =
     (Exited 0, st\<lparr>trace := trace st @ [LogError ''An error occurred:'' (Some x)] @
                               cleanup e (packagerProcess st) @ [ProcessExit 0]\<rparr>)"
  by (cases "kill e") (simp_all add: catch_block_def stop_packager_def cleanup_def stmt_defs)

lemma run_unfold:
  "run a e = (case try_body a e init of (f, st) \<Rightarrow>
                (case f of Thrown x \<Rightarrow> catch_block e x st | _ \<Rightarrow> (f, st)))"
  by (simp add: run_def try_catch_def)


subsection \<open>The fan-out\<close>

lemmas fan_defs = fan_out_seen_def fan_out_join_def branch_settlement_def branch_def
  branch_promise_def promise_all_def seen_by_def launched_def runner_def

lemma seen_kinds:
  "ev \<in> set (fan_out_seen a e) \<Longrightarrow>
   (\<exists>p x. ev = RunnerSettled p x) \<or> (\<exists>p x. ev = LogError (branch_label p) (Some x))"
  by (auto simp: fan_out_seen_def branch_settlement_def split: if_splits settle.splits)

lemma label_not_catch_entry: "branch_label p \<noteq> ''An error occurred:''"
  by (cases p) (simp_all add: branch_label_def)

lemma seen_no_catch_entry: "filter is_catch_entry (fan_out_seen a e) = []"
  by (auto simp: filter_empty_conv label_not_catch_entry dest!: seen_kinds)

lemma seen_no_step: "filter is_step (fan_out_seen a e) = []"
  by (auto simp: filter_empty_conv dest!: seen_kinds)

lemma seen_no_kill: "filter is_kill (fan_out_seen a e) = []"
  by (auto simp: filter_empty_conv dest!: seen_kinds)

lemma seen_no_packager_run: "filter is_packager_run (fan_out_seen a e) = []"
  by (auto simp: filter_empty_conv dest!: seen_kinds)

lemma seen_no_runner_run: "filter is_runner_run (fan_out_seen a e) = []"
  by (auto simp: filter_empty_conv dest!: seen_kinds)

lemma seen_no_new_watcher: "filter is_new_watcher (fan_out_seen a e) = []"
  by (auto simp: filter_empty_conv dest!: seen_kinds)

lemma join_rejected_iff:
  "rejects (fan_out_join a e) =
     (launched a IOS \<and> rejects (runner e IOS) \<or> launched a Android \<and> rejects (runner e Android))"
  by (auto simp: fan_defs split: settle.splits)

lemma join_rejected_source:
  "fan_out_join a e = Rejects T y \<Longrightarrow>
   (launched a IOS \<and> runner e IOS = Rejects T y) \<or>
   (launched a Android \<and> runner e Android = Rejects T y)"
  by (auto simp: fan_defs split: settle.splits if_splits)

lemma join_rejected_earliest:
  "fan_out_join a e = Rejects T y \<Longrightarrow> launched a p \<Longrightarrow> runner e p = Rejects t x \<Longrightarrow> T \<le> t"
  by (cases p) (auto simp: fan_defs split: settle.splits if_splits)

lemma seen_settled:
  "fan_out_join a e = Rejects T y \<Longrightarrow>
   list_ex (is_settled p) (fan_out_seen a e) = (launched a p \<and> settles_by T (runner e p))"
  by (cases p) (auto simp: fan_defs split: settle.splits if_splits)

lemma seen_settled_all:
  "\<not> rejects (fan_out_join a e) \<Longrightarrow>
   list_ex (is_settled p) (fan_out_seen a e) = (launched a p \<and> runner e p \<noteq> Never)"
  by (cases p) (auto simp: fan_defs split: settle.splits if_splits)


subsection \<open>The whole run, case by case\<close>

lemma run_flow_cases:
  "run_flow a e =
     (case validator e of
        Threw x \<Rightarrow> Exited 0
      | Returned \<Rightarrow>
          (case generator e of
             Threw x \<Rightarrow> Exited 0
           | Returned \<Rightarrow>
               (case validateDown e of
                  Rejected x \<Rightarrow> Exited 0
                | Pending \<Rightarrow> Suspended
                | Fulfilled down \<Rightarrow>
                    if down
                    then (case fan_out_join a e of
                            Fulfils t \<Rightarrow> Normal
                          | Rejects t x \<Rightarrow> Exited 0
                          | Never \<Rightarrow> Suspended)
                    else Exited 1)))"
  by (simp add: run_flow_def run_unfold catch_block_exits try_body_validator_throws
      try_body_generator_throws try_body_probe_rejected try_body_probe_pending
      try_body_port_in_use try_body_gates_pass gates_pass_def await_def
      split: call.split awaited.split settle.split)

lemma try_flow_cases:
  "fst (try_body a e init) =
     (case validator e of
        Threw x \<Rightarrow> Thrown x
      | Returned \<Rightarrow>
          (case generator e of
             Threw x \<Rightarrow> Thrown x
           | Returned \<Rightarrow>
               (case validateDown e of
                  Rejected x \<Rightarrow> Thrown x
                | Pending \<Rightarrow> Suspended
                | Fulfilled down \<Rightarrow>
                    if down then await (fan_out_join a e) else Exited 1)))"
  by (simp add: try_body_validator_throws
      try_body_generator_throws try_body_probe_rejected try_body_probe_pending
      try_body_port_in_use try_body_gates_pass gates_pass_def
      split: call.split awaited.split)

lemma run_flow_caught: "reaches_catch a e \<Longrightarrow> run_flow a e = Exited 0"
  by (simp add: reaches_catch_def run_flow_cases try_flow_cases await_def
      split: call.splits awaited.splits settle.splits if_splits)

lemma run_validator_throws:
  "validator e = Threw x \<Longrightarrow>
   run a e = (Exited 0, \<lparr>trace = take 2 (prelude a e) @ catch_events e x Undefined,
                          packagerProcess = Undefined\<rparr>)"
  by (simp add: run_unfold try_body_validator_throws catch_block_exits prelude_def
      catch_events_def)

lemma run_generator_throws:
  "validator e = Returned \<Longrightarrow> generator e = Threw x \<Longrightarrow>
   run a e = (Exited 0, \<lparr>trace = take 4 (prelude a e) @ catch_events e x Undefined,
                          packagerProcess = Undefined\<rparr>)"
  by (simp add: run_unfold try_body_generator_throws catch_block_exits catch_events_def)

lemma run_probe_rejected:
  "validator e = Returned \<Longrightarrow> generator e = Returned \<Longrightarrow> validateDown e = Rejected x \<Longrightarrow>
   run a e = (Exited 0, \<lparr>trace = take 6 (prelude a e) @ catch_events e x Undefined,
                          packagerProcess = Undefined\<rparr>)"
  by (simp add: run_unfold try_body_probe_rejected catch_block_exits catch_events_def)

lemma run_probe_pending:
  "validator e = Returned \<Longrightarrow> generator e = Returned \<Longrightarrow> validateDown e = Pending \<Longrightarrow>
   run a e = (Suspended, \<lparr>trace = take 6 (prelude a e), packagerProcess = Undefined\<rparr>)"
  by (simp add: run_unfold try_body_probe_pending)

lemma run_port_in_use:
  "validator e = Returned \<Longrightarrow> generator e = Returned \<Longrightarrow> validateDown e = Fulfilled False \<Longrightarrow>
   run a e = (Exited 1, \<lparr>trace = take 6 (prelude a e) @
                                   [LogError (port_in_use_message a) None, ProcessExit 1],
                          packagerProcess = Undefined\<rparr>)"
  by (simp add: run_unfold try_body_port_in_use)

lemma run_join_rejected:
  "gates_pass e \<Longrightarrow> fan_out_join a e = Rejects T y \<Longrightarrow>
   run a e =
     (Exited 0,
      \<lparr>trace = prelude a e @ branch_start a e @ fan_out_seen a e @
                catch_events e y (if no_packager a then Undefined else spawned e),
        packagerProcess = (if no_packager a then Undefined else spawned e)\<rparr>)"
  by (simp add: run_unfold try_body_gates_pass catch_block_exits catch_events_def await_def)

lemma run_join_not_rejected:
  "gates_pass e \<Longrightarrow> \<not> rejects (fan_out_join a e) \<Longrightarrow>
   run a e =
     (await (fan_out_join a e),
      \<lparr>trace = prelude a e @ branch_start a e @ fan_out_seen a e,
        packagerProcess = (if no_packager a then Undefined else spawned e)\<rparr>)"
  by (cases "fan_out_join a e") (simp_all add: run_unfold try_body_gates_pass await_def)

lemma gate_cases:
  obtains
    (validator_throws) x where "validator e = Threw x"
  | (generator_throws) x where "validator e = Returned" "generator e = Threw x"
  | (probe_rejected) x where "validator e = Returned" "generator e = Returned"
      "validateDown e = Rejected x"
  | (probe_pending) "validator e = Returned" "generator e = Returned" "validateDown e = Pending"
  | (port_in_use) "validator e = Returned" "generator e = Returned"
      "validateDown e = Fulfilled False"
  | (gates_pass) "gates_pass e"
proof (cases "validator e")
  case Returned
  note v = this
  show ?thesis
  proof (cases "generator e")
    case Returned
    note g = this
    show ?thesis
    proof (cases "validateDown e")
      case (Fulfilled down)
      then show ?thesis
        using v g port_in_use gates_pass by (cases down) (simp_all add: gates_pass_def)
    next
      case (Rejected x)
      then show ?thesis using v g probe_rejected by blast
    next
      case Pending
      then show ?thesis using v g probe_pending by blast
    qed
  next
    case (Threw x)
    then show ?thesis using v generator_throws by blast
  qed
next
  case (Threw x)
  then show ?thesis using validator_throws by blast
qed

lemma filter_cleanup_step: "filter is_step (catch_events e x h) = []"
  by (simp add: catch_events_def cleanup_def split: call.split)

lemma filter_cleanup_packager_run: "filter is_packager_run (catch_events e x h) = []"
  by (simp add: catch_events_def cleanup_def split: call.split)

lemma filter_cleanup_runner_run: "filter is_runner_run (catch_events e x h) = []"
  by (simp add: catch_events_def cleanup_def split: call.split)

lemma filter_cleanup_new_watcher: "filter is_new_watcher (catch_events e x h) = []"
  by (simp add: catch_events_def cleanup_def split: call.split)

lemma filter_cleanup_kill:
  "filter is_kill (catch_events e x h) = (if h = Process then [Kill] else [])"
  by (simp add: catch_events_def cleanup_def split: call.split)

lemma filter_cleanup_catch_entry:
  "filter is_catch_entry (catch_events e x h) = [LogError ''An error occurred:'' (Some x)]"
  by (simp add: catch_events_def cleanup_def split: call.split)

lemma filter_start_step: "filter is_step (branch_start a e) = branch_start a e"
  by (simp add: branch_start_def)

lemma filter_start_packager_run: "filter is_packager_run (branch_start a e) = []"
  by (simp add: branch_start_def)

lemma filter_start_new_watcher: "filter is_new_watcher (branch_start a e) = []"
  by (simp add: branch_start_def)

lemma filter_start_kill: "filter is_kill (branch_start a e) = []"
  by (simp add: branch_start_def)

lemma filter_start_catch_entry: "filter is_catch_entry (branch_start a e) = []"
  by (simp add: branch_start_def)

lemma filter_prelude_step:
  "filter is_step (prelude a e) =
     [ValidatorRun,
      GenerateConfigurationRun (engineDir e @ ''/../..'') (package_json_path a e) False
        (force_localhost a),
      NewPackagerWatcher (packager_port a) (no_packager a),
      ValidateDown,
      StartWatchingUntilUp] @
     (if no_packager a then [] else [PackagerRun (engineDir e) (reset_cache a) (packager_port a)])"
  by (simp add: prelude_def)

lemma filter_prelude_packager_run:
  "filter is_packager_run (prelude a e) =
     (if no_packager a then [] else [PackagerRun (engineDir e) (reset_cache a) (packager_port a)])"
  by (simp add: prelude_def)

lemma filter_prelude_new_watcher:
  "filter is_new_watcher (prelude a e) = [NewPackagerWatcher (packager_port a) (no_packager a)]"
  by (simp add: prelude_def)

lemma filter_prelude_kill: "filter is_kill (prelude a e) = []"
  by (simp add: prelude_def)

lemma filter_prelude_catch_entry: "filter is_catch_entry (prelude a e) = []"
  by (simp add: prelude_def)

lemmas filter_pieces =
  filter_cleanup_step filter_cleanup_packager_run filter_cleanup_runner_run
  filter_cleanup_new_watcher filter_cleanup_kill filter_cleanup_catch_entry
  filter_start_step filter_start_packager_run filter_start_new_watcher filter_start_kill
  filter_start_catch_entry filter_prelude_step filter_prelude_packager_run
  filter_prelude_new_watcher filter_prelude_kill filter_prelude_catch_entry
  seen_no_catch_entry seen_no_step seen_no_kill seen_no_packager_run seen_no_runner_run
  seen_no_new_watcher

lemma list_ex_filter: "list_ex P xs = (filter P xs \<noteq> [])"
  by (induction xs) simp_all

lemma seen_no_start_watching: "filter is_start_watching (fan_out_seen a e) = []"
  by (auto simp: filter_empty_conv dest!: seen_kinds)

lemma filter_start_watching_pieces:
  "filter is_start_watching (prelude a e) = [StartWatchingUntilUp]"
  "filter is_start_watching (branch_start a e) = []"
  "filter is_start_watching (catch_events e x h) = []"
  by (simp_all add: prelude_def branch_start_def catch_events_def cleanup_def split: call.split)

lemma run_trace_gates_pass:
  "gates_pass e \<Longrightarrow>
   run_trace a e =
     prelude a e @ branch_start a e @ fan_out_seen a e @
     (case fan_out_join a e of
        Rejects T y \<Rightarrow> catch_events e y (if no_packager a then Undefined else spawned e)
      | Fulfils t \<Rightarrow> []
      | Never \<Rightarrow> [])"
  by (cases "fan_out_join a e")
     (simp_all add: run_trace_def run_join_rejected run_join_not_rejected)

lemma join_kill_irrelevant: "fan_out_join a (e\<lparr>kill := k\<rparr>) = fan_out_join a e"
  by (simp add: fan_out_join_def branch_def runner_def)

lemma run_flow_kill_irrelevant: "run_flow a (e\<lparr>kill := k\<rparr>) = run_flow a e"
  by (simp add: run_flow_cases join_kill_irrelevant split: call.split awaited.split)

lemma reaches_catch_cases:
  "reaches_catch a e =
     ((\<exists>x. validator e = Threw x) \<or>
      (\<exists>x. validator e = Returned \<and> generator e = Threw x) \<or>
      (\<exists>x. validator e = Returned \<and> generator e = Returned \<and> validateDown e = Rejected x) \<or>
      gates_pass e \<and> rejects (fan_out_join a e))"
  by (simp add: reaches_catch_def try_flow_cases gates_pass_def await_def
      split: call.split awaited.split settle.split)


lemma join_rejected_which:
  "launched a p \<Longrightarrow> runner e p = Rejects t x \<Longrightarrow>
   fan_out_join a e = Rejects t x \<or>
   (\<exists>T y. fan_out_join a e = Rejects T y \<and> T \<le> t \<and> launched a (other p) \<and>
          runner e (other p) = Rejects T y)"
  by (cases p) (auto simp: fan_defs split: settle.splits if_splits)

lemma ex_platform: "(\<exists>p. Q p) = (Q IOS \<or> Q Android)"
  by (metis platform.exhaust)

lemma mem_seen:
  "(ev \<in> set (fan_out_seen a e)) =
     (\<exists>p t evs. (t, evs) \<in> set (branch_settlement a e p) \<and> seen_by (fan_out_join a e) t \<and>
                ev \<in> set evs)"
  unfolding ex_platform by (auto simp: fan_out_seen_def)

lemma label_in_seen:
  "launched a p \<Longrightarrow> runner e p = Rejects t x \<Longrightarrow>
   (LogError (branch_label p) (Some x) \<in> set (fan_out_seen a e)) = seen_by (fan_out_join a e) t"
  unfolding mem_seen ex_platform
  by (cases p) (auto simp: branch_settlement_def branch_label_def split: settle.splits if_splits)

lemma label_not_elsewhere:
  "LogError (branch_label p) (Some x) \<notin> set (prelude a e)"
  "LogError (branch_label p) (Some x) \<notin> set (branch_start a e)"
  "LogError (branch_label p) (Some x) \<notin> set (catch_events e y h)"
  by (cases p; simp add: prelude_def branch_start_def catch_events_def cleanup_def branch_label_def
      split: call.split)+

lemma before_catch:
  assumes "filter is_catch_entry xs = []"
  shows "takeWhile (\<lambda>ev. \<not> is_catch_entry ev) (xs @ catch_events e y h) = xs"
proof -
  have "\<forall>ev\<in>set xs. \<not> is_catch_entry ev"
    using assms by (simp add: filter_empty_conv)
  then have "takeWhile (\<lambda>ev. \<not> is_catch_entry ev) (xs @ catch_events e y h) =
      xs @ takeWhile (\<lambda>ev. \<not> is_catch_entry ev) (catch_events e y h)"
    by (simp add: takeWhile_append2)
  then show ?thesis by (simp add: catch_events_def)
qed

lemma not_settled_before_fan_out:
  "\<not> list_ex (is_settled p) (prelude a e)" "\<not> list_ex (is_settled p) (branch_start a e)"
  by (simp_all add: prelude_def branch_start_def)

lemma settled_before_cleanup_rejected:
  assumes "gates_pass e" and "fan_out_join a e = Rejects T y"
  shows "settled_before_cleanup p (run_trace a e) = (launched a p \<and> settles_by T (runner e p))"
proof -
  have "filter is_catch_entry (prelude a e @ branch_start a e @ fan_out_seen a e) = []"
    by (simp add: filter_pieces)
  from before_catch [OF this] assms show ?thesis
    by (simp add: settled_before_cleanup_def run_trace_gates_pass seen_settled
        not_settled_before_fan_out)
qed


section \<open>The claims\<close>

subsection \<open>Gates and exit codes\<close>

text \<open>
  C2, as amended. When the configuration validator or the configuration generator throws,
  the run logs the error in the top-level \<open>catch\<close>, finds no packager process to stop and
  calls \<open>process.exit(0)\<close>: the exit code is 0; no kill is requested, no packager is
  spawned and no platform runner is started.
\<close>

theorem gate_failure_exits_zero:
  assumes "validator e = Threw x \<or> validator e = Returned \<and> generator e = Threw x"
  shows "run_flow a e = Exited 0 \<and>
         \<not> exits_nonzero (run_flow a e) \<and>
         suffix [LogError ''An error occurred:'' (Some x),
                 LogInfo ''No Metro Bundler process to stop.'',
                 ProcessExit 0] (run_trace a e) \<and>
         \<not> list_ex is_kill (run_trace a e) \<and>
         \<not> list_ex is_packager_run (run_trace a e) \<and>
         \<not> list_ex is_runner_run (run_trace a e) \<and>
         packagerProcess (snd (run a e)) = Undefined"
  using assms
proof
  assume "validator e = Threw x"
  then show ?thesis
    by (simp add: run_flow_def run_trace_def run_validator_throws prelude_def catch_events_def
        cleanup_def suffix_def)
next
  assume "validator e = Returned \<and> generator e = Threw x"
  then show ?thesis
    by (simp add: run_flow_def run_trace_def run_generator_throws prelude_def catch_events_def
        cleanup_def suffix_def)
qed

theorem gate_failure_exits_zero_witness:
  "run_flow both_platforms invalid_config = Exited 0 \<and>
   \<not> list_ex is_kill (run_trace both_platforms invalid_config) \<and>
   packagerProcess (snd (run both_platforms invalid_config)) = Undefined"
proof -
  have "validator invalid_config = Threw ''invalid react-native.config.js'' \<or>
        validator invalid_config = Returned \<and>
        generator invalid_config = Threw ''invalid react-native.config.js''"
    by (simp add: invalid_config_def all_well_def)
  from gate_failure_exits_zero [OF this, of both_platforms] show ?thesis by simp
qed

text \<open>
  C2 as stated asks for a non-zero exit code. With a validator that throws, the run does not
  exit with a non-zero code.
\<close>

theorem gate_failure_nonzero_exit_counterexample:
  "validator invalid_config = Threw ''invalid react-native.config.js'' \<and>
   run_flow both_platforms invalid_config = Exited 0 \<and>
   \<not> exits_nonzero (run_flow both_platforms invalid_config)"
  by (simp add: run_flow_def run_validator_throws invalid_config_def all_well_def)


text \<open>
  C4. When \<open>validateDown\<close> answers false the run logs the port-in-use error and calls
  \<open>process.exit(1)\<close> at once: the trace ends there, with no packager spawned, no platform
  runner started, no kill and no entry into the top-level \<open>catch\<close>.
\<close>

theorem port_in_use_stops_the_run:
  assumes "validator e = Returned" and "generator e = Returned"
    and "validateDown e = Fulfilled False"
  shows "run_flow a e = Exited 1 \<and>
         run_trace a e =
           [LogInfo ''Validating React Native CLI configuration...'',
            ValidatorRun,
            LogInfo ''Generating project configuration...'',
            GenerateConfigurationRun (engineDir e @ ''/../..'') (package_json_path a e) False
              (force_localhost a),
            NewPackagerWatcher (packager_port a) (no_packager a),
            ValidateDown,
            LogError (port_in_use_message a) None,
            ProcessExit 1] \<and>
         \<not> list_ex is_packager_run (run_trace a e) \<and>
         \<not> list_ex is_runner_run (run_trace a e) \<and>
         \<not> list_ex is_kill (run_trace a e) \<and>
         \<not> list_ex is_catch_entry (run_trace a e) \<and>
         packagerProcess (snd (run a e)) = Undefined"
  using assms
  by (simp add: run_flow_def run_trace_def run_port_in_use prelude_def port_in_use_message_def)

theorem port_in_use_stops_the_run_witness:
  "run_flow both_platforms port_taken = Exited 1 \<and>
   \<not> list_ex is_packager_run (run_trace both_platforms port_taken) \<and>
   \<not> list_ex is_runner_run (run_trace both_platforms port_taken) \<and>
   \<not> list_ex is_kill (run_trace both_platforms port_taken)"
proof -
  have v: "validator port_taken = Returned" and g: "generator port_taken = Returned"
    and d: "validateDown port_taken = Fulfilled False"
    by (simp_all add: port_taken_def all_well_def)
  show ?thesis
    using port_in_use_stops_the_run [OF v g d, of both_platforms] by simp
qed

subsection \<open>Watcher and packager\<close>

text \<open>
  C5. In a run that passes the \<open>validateDown\<close> gate, \<open>AsyncPackagerRunner.run\<close> is called
  (once, with the engine directory, \<open>reset_cache\<close> and \<open>packager_port\<close> of the arguments)
  exactly when \<open>no_packager\<close> is unset, and \<open>packagerProcess\<close> then holds what the call
  returned; with \<open>no_packager\<close> set there is no such call and \<open>packagerProcess\<close> stays
  undefined.
\<close>

theorem packager_spawned_unless_skipped:
  assumes "gates_pass e"
  shows "list_ex is_packager_run (run_trace a e) = (\<not> no_packager a) \<and>
         filter is_packager_run (run_trace a e) =
           (if no_packager a then []
            else [PackagerRun (engineDir e) (reset_cache a) (packager_port a)]) \<and>
         packagerProcess (snd (run a e)) = (if no_packager a then Undefined else spawned e)"
proof (cases "fan_out_join a e")
  case (Rejects T y)
  with assms show ?thesis
    by (simp add: run_trace_def run_join_rejected list_ex_filter filter_pieces)
next
  case (Fulfils t)
  then have "\<not> rejects (fan_out_join a e)" by simp
  with assms show ?thesis
    by (simp add: run_trace_def run_join_not_rejected list_ex_filter filter_pieces)
next
  case Never
  then have "\<not> rejects (fan_out_join a e)" by simp
  with assms show ?thesis
    by (simp add: run_trace_def run_join_not_rejected list_ex_filter filter_pieces)
qed

theorem packager_spawned_unless_skipped_witness:
  "list_ex is_packager_run (run_trace both_platforms all_well) \<and>
   packagerProcess (snd (run both_platforms all_well)) = Process \<and>
   \<not> list_ex is_packager_run (run_trace (both_platforms\<lparr>no_packager := True\<rparr>) all_well) \<and>
   packagerProcess (snd (run (both_platforms\<lparr>no_packager := True\<rparr>) all_well)) = Undefined"
proof -
  have g: "gates_pass all_well"
    by (simp add: gates_pass_def all_well_def)
  show ?thesis
    using packager_spawned_unless_skipped [OF g, of both_platforms]
      packager_spawned_unless_skipped [OF g, of "both_platforms\<lparr>no_packager := True\<rparr>"]
    by (simp add: both_platforms_def all_well_def)
qed

text \<open>
  C9. In a run that passes the \<open>validateDown\<close> gate, the watcher is constructed once, with
  \<open>packager_port\<close> and \<open>no_packager\<close>, and \<open>startWatchingUntilUp\<close> is called exactly once,
  whatever \<open>no_packager\<close> is: also with \<open>no_packager\<close> set, when no packager is spawned.
\<close>

theorem watcher_always_started:
  assumes "gates_pass e"
  shows "filter is_new_watcher (run_trace a e) =
           [NewPackagerWatcher (packager_port a) (no_packager a)] \<and>
         filter is_start_watching (run_trace a e) = [StartWatchingUntilUp] \<and>
         StartWatchingUntilUp \<in> set (run_trace (a\<lparr>no_packager := True\<rparr>) e) \<and>
         \<not> list_ex is_packager_run (run_trace (a\<lparr>no_packager := True\<rparr>) e)"
proof -
  have "filter is_start_watching (run_trace b e) = [StartWatchingUntilUp]" for b
    using assms
    by (simp add: run_trace_gates_pass filter_start_watching_pieces seen_no_start_watching
        split: settle.split)
  moreover have "StartWatchingUntilUp \<in> set (run_trace b e)" for b
    using assms by (simp add: run_trace_gates_pass prelude_def)
  moreover have "filter is_new_watcher (run_trace a e) =
      [NewPackagerWatcher (packager_port a) (no_packager a)]"
    using assms by (simp add: run_trace_gates_pass filter_pieces split: settle.split)
  moreover have "\<not> list_ex is_packager_run (run_trace (a\<lparr>no_packager := True\<rparr>) e)"
    using assms
    by (simp add: run_trace_gates_pass list_ex_filter filter_pieces split: settle.split)
  ultimately show ?thesis by simp
qed

theorem watcher_always_started_witness:
  "filter is_start_watching (run_trace (both_platforms\<lparr>no_packager := True\<rparr>) all_well) =
     [StartWatchingUntilUp] \<and>
   filter is_new_watcher (run_trace (both_platforms\<lparr>no_packager := True\<rparr>) all_well) =
     [NewPackagerWatcher ''8081'' True]"
proof -
  have g: "gates_pass all_well"
    by (simp add: gates_pass_def all_well_def)
  show ?thesis
    using watcher_always_started [OF g, of "both_platforms\<lparr>no_packager := True\<rparr>"]
    by (simp add: both_platforms_def)
qed

subsection \<open>Order of the steps\<close>

text \<open>
  C7. The steps of a run are an initial segment of the plan: validator, generator, watcher
  construction, \<open>validateDown\<close>, \<open>startWatchingUntilUp\<close>, the packager (unless skipped),
  then the platform runners. The segment ends at the first gate that fails: after the
  validator when it throws, after the generator when it throws, after \<open>validateDown\<close> when
  it does not answer true; otherwise it is the whole plan.
\<close>

theorem steps_in_order:
  "steps (run_trace a e) = take (reached a e) (plan a e) \<and>
   prefix (steps (run_trace a e)) (plan a e)"
proof -
  have "steps (run_trace a e) = take (reached a e) (plan a e)"
  proof (cases e rule: gate_cases)
    case (gates_pass)
    show ?thesis
    proof (cases "rejects (fan_out_join a e)")
      case True
      then obtain T y where "fan_out_join a e = Rejects T y"
        by (cases "fan_out_join a e") simp_all
      with gates_pass show ?thesis
        by (simp add: steps_def run_trace_def run_join_rejected filter_pieces reached_def
            plan_def gates_pass_def)
    next
      case False
      with gates_pass show ?thesis
        by (simp add: steps_def run_trace_def run_join_not_rejected filter_pieces reached_def
            plan_def gates_pass_def)
    qed
  qed (simp_all add: steps_def run_trace_def run_validator_throws run_generator_throws
        run_probe_rejected run_probe_pending run_port_in_use reached_def plan_def prelude_def
        catch_events_def cleanup_def)
  then show ?thesis by (simp add: take_is_prefix)
qed

subsection \<open>Cleanup\<close>

text \<open>
  C6. In a run that reaches the top-level \<open>catch\<close>, \<open>kill\<close> is called exactly when
  \<open>packagerProcess\<close> is a handle with a \<open>kill\<close> function (which needs the gates passed,
  \<open>no_packager\<close> unset and such a handle returned), and at most once; a \<open>kill\<close> that throws
  is logged, and the run exits with code 0 whatever \<open>kill\<close> does; nothing is thrown out
  of \<open>run\<close>.
\<close>

theorem cleanup_guarded:
  assumes "reaches_catch a e"
  shows "list_ex is_kill (run_trace a e) = (packagerProcess (snd (run a e)) = Process) \<and>
         (packagerProcess (snd (run a e)) = Process) =
           (gates_pass e \<and> \<not> no_packager a \<and> spawned e = Process) \<and>
         length (filter is_kill (run_trace a e)) \<le> 1 \<and>
         (LogError ''Failed to stop the Metro Bundler process:'' (Some k) \<in> set (run_trace a e)) =
           (packagerProcess (snd (run a e)) = Process \<and> kill e = Threw k) \<and>
         run_flow a e = Exited 0 \<and>
         run_flow a (e\<lparr>kill := r\<rparr>) = run_flow a e \<and>
         \<not> is_thrown (run_flow a e)"
proof -
  have flow: "run_flow a e = Exited 0"
    using assms by (rule run_flow_caught)
  have rest: "list_ex is_kill (run_trace a e) = (packagerProcess (snd (run a e)) = Process) \<and>
         (packagerProcess (snd (run a e)) = Process) =
           (gates_pass e \<and> \<not> no_packager a \<and> spawned e = Process) \<and>
         length (filter is_kill (run_trace a e)) \<le> 1 \<and>
         (LogError ''Failed to stop the Metro Bundler process:'' (Some k) \<in> set (run_trace a e)) =
           (packagerProcess (snd (run a e)) = Process \<and> kill e = Threw k)"
  proof (cases e rule: gate_cases)
    case (validator_throws x)
    then show ?thesis
      by (simp add: run_trace_def run_validator_throws prelude_def catch_events_def cleanup_def
          gates_pass_def)
  next
    case (generator_throws x)
    then show ?thesis
      by (simp add: run_trace_def run_generator_throws prelude_def catch_events_def cleanup_def
          gates_pass_def)
  next
    case (probe_rejected x)
    then show ?thesis
      by (simp add: run_trace_def run_probe_rejected prelude_def catch_events_def cleanup_def
          gates_pass_def)
  next
    case probe_pending
    with assms show ?thesis by (simp add: reaches_catch_cases gates_pass_def)
  next
    case port_in_use
    with assms show ?thesis by (simp add: reaches_catch_cases gates_pass_def)
  next
    case gates_pass
    with assms obtain T y where j: "fan_out_join a e = Rejects T y"
      by (cases "fan_out_join a e") (simp_all add: reaches_catch_cases gates_pass_def)
    have no_label: "LogError ''Failed to stop the Metro Bundler process:'' (Some k)
        \<notin> set (fan_out_seen a e)"
    proof
      assume "LogError ''Failed to stop the Metro Bundler process:'' (Some k)
        \<in> set (fan_out_seen a e)"
      from seen_kinds [OF this] obtain p where
        "branch_label p = ''Failed to stop the Metro Bundler process:''" by auto
      then show False by (cases p) (simp_all add: branch_label_def)
    qed
    from gates_pass j no_label show ?thesis
      by (auto simp: run_trace_def run_join_rejected list_ex_filter filter_pieces prelude_def
          branch_start_def catch_events_def cleanup_def split: call.splits)
  qed
  show ?thesis
    using flow rest by (simp add: run_flow_kill_irrelevant)
qed

theorem cleanup_guarded_witness:
  "list_ex is_kill (run_trace both_platforms (ios_fails_first\<lparr>kill := Threw ''ESRCH''\<rparr>)) \<and>
   LogError ''Failed to stop the Metro Bundler process:'' (Some ''ESRCH'')
     \<in> set (run_trace both_platforms (ios_fails_first\<lparr>kill := Threw ''ESRCH''\<rparr>)) \<and>
   run_flow both_platforms (ios_fails_first\<lparr>kill := Threw ''ESRCH''\<rparr>) = Exited 0"
proof -
  have "reaches_catch both_platforms (ios_fails_first\<lparr>kill := Threw ''ESRCH''\<rparr>)"
    by (simp add: reaches_catch_cases gates_pass_def join_rejected_iff launched_def runner_def
        ios_fails_first_def all_well_def both_platforms_def)
  from cleanup_guarded [OF this, of "''ESRCH''"] show ?thesis
    by (simp add: gates_pass_def ios_fails_first_def all_well_def both_platforms_def)
qed

subsection \<open>The platform branches\<close>

text \<open>
  C8. In a run that passes the gates, when the \<open>run\<close> of a launched platform runner is
  rejected with an error, the promise of its branch is rejected with the same error; the
  join is rejected, with that error or with the error of the sibling when the sibling was
  rejected no later; the error is logged under the branch's label if the branch settled by
  the time the join was rejected; and the run reaches the top-level \<open>catch\<close>.
\<close>

theorem runner_error_propagates:
  assumes "gates_pass e" and "launched a p" and "runner e p = Rejects t x"
  shows "branch a e p = Rejects t x \<and>
         (fan_out_join a e = Rejects t x \<or>
          (\<exists>T y. fan_out_join a e = Rejects T y \<and> T \<le> t \<and> launched a (other p) \<and>
                 runner e (other p) = Rejects T y)) \<and>
         (LogError (branch_label p) (Some x) \<in> set (run_trace a e)) =
           seen_by (fan_out_join a e) t \<and>
         reaches_catch a e \<and>
         run_flow a e = Exited 0"
proof -
  have b: "branch a e p = Rejects t x"
    using assms by (simp add: branch_def branch_promise_def)
  have r: "rejects (fan_out_join a e)"
    using assms(2,3) by (cases p) (auto simp: join_rejected_iff)
  then have c: "reaches_catch a e"
    using assms(1) by (simp add: reaches_catch_cases)
  have l: "(LogError (branch_label p) (Some x) \<in> set (run_trace a e)) =
           seen_by (fan_out_join a e) t"
    using assms
    by (simp add: run_trace_gates_pass label_in_seen label_not_elsewhere split: settle.split)
  show ?thesis
    using b c l join_rejected_which [OF assms(2,3)] run_flow_caught [OF c] by simp
qed

theorem runner_error_propagates_witness:
  "branch both_platforms ios_fails_first IOS = Rejects 1 ''no simulator'' \<and>
   fan_out_join both_platforms ios_fails_first = Rejects 1 ''no simulator'' \<and>
   LogError ''Error running iOS tasks:'' (Some ''no simulator'')
     \<in> set (run_trace both_platforms ios_fails_first) \<and>
   run_flow both_platforms ios_fails_first = Exited 0"
proof -
  have g: "gates_pass ios_fails_first"
    by (simp add: gates_pass_def ios_fails_first_def all_well_def)
  have l: "launched both_platforms IOS"
    by (simp add: launched_def both_platforms_def)
  have r: "runner ios_fails_first IOS = Rejects 1 ''no simulator''"
    by (simp add: runner_def ios_fails_first_def all_well_def)
  have j: "fan_out_join both_platforms ios_fails_first = Rejects 1 ''no simulator''"
    by (simp add: fan_defs both_platforms_def ios_fails_first_def all_well_def)
  show ?thesis
    using runner_error_propagates [OF g l r] j
    by (simp add: seen_by_def branch_label_def)
qed

text \<open>
  C1, as amended. When both platform branches are launched and at least one fails, the join
  is rejected at the first rejection, with its reason: a branch has settled before cleanup
  exactly when it settles no later than that instant, so a sibling that is still running
  is not awaited. The top-level \<open>catch\<close> is entered exactly once and \<open>kill\<close> is called at
  most once (once when a handle with \<open>kill\<close> is held), however many branches fail.
\<close>

theorem fan_out_fails_fast:
  assumes "gates_pass e" and "run_ios a" and "run_android a"
    and "rejects (ios_runner e) \<or> rejects (android_runner e)"
  shows "\<exists>T y. fan_out_join a e = Rejects T y \<and>
           (ios_runner e = Rejects T y \<or> android_runner e = Rejects T y) \<and>
           \<not> rejects_before T (ios_runner e) \<and> \<not> rejects_before T (android_runner e) \<and>
           settled_before_cleanup IOS (run_trace a e) = settles_by T (ios_runner e) \<and>
           settled_before_cleanup Android (run_trace a e) = settles_by T (android_runner e) \<and>
           length (filter is_catch_entry (run_trace a e)) = 1 \<and>
           length (filter is_kill (run_trace a e)) =
             (if \<not> no_packager a \<and> spawned e = Process then 1 else 0) \<and>
           run_flow a e = Exited 0"
proof -
  have "rejects (fan_out_join a e)"
    using assms(2-4) by (simp add: join_rejected_iff launched_def runner_def)
  then obtain T y where j: "fan_out_join a e = Rejects T y"
    by (cases "fan_out_join a e") simp_all
  have src: "ios_runner e = Rejects T y \<or> android_runner e = Rejects T y"
    using join_rejected_source [OF j] by (auto simp: launched_def runner_def)
  have early_ios: "\<not> rejects_before T (ios_runner e)"
    using join_rejected_earliest [OF j, of IOS] assms(2)
    by (cases "ios_runner e") (auto simp: launched_def runner_def)
  have early_android: "\<not> rejects_before T (android_runner e)"
    using join_rejected_earliest [OF j, of Android] assms(3)
    by (cases "android_runner e") (auto simp: launched_def runner_def)
  have s_ios: "settled_before_cleanup IOS (run_trace a e) = settles_by T (ios_runner e)"
    using settled_before_cleanup_rejected [OF assms(1) j, of IOS] assms(2)
    by (simp add: launched_def runner_def)
  have s_android:
    "settled_before_cleanup Android (run_trace a e) = settles_by T (android_runner e)"
    using settled_before_cleanup_rejected [OF assms(1) j, of Android] assms(3)
    by (simp add: launched_def runner_def)
  have once: "length (filter is_catch_entry (run_trace a e)) = 1"
    using assms(1) j by (simp add: run_trace_gates_pass filter_pieces)
  have kills: "length (filter is_kill (run_trace a e)) =
      (if \<not> no_packager a \<and> spawned e = Process then 1 else 0)"
    using assms(1) j by (simp add: run_trace_gates_pass filter_pieces)
  have flow: "run_flow a e = Exited 0"
    using assms(1) j by (simp add: run_flow_def run_join_rejected)
  show ?thesis
    using j src early_ios early_android s_ios s_android once kills flow by blast
qed

theorem fan_out_fails_fast_witness:
  "fan_out_join both_platforms ios_fails_first = Rejects 1 ''no simulator'' \<and>
   settled_before_cleanup IOS (run_trace both_platforms ios_fails_first) \<and>
   \<not> settled_before_cleanup Android (run_trace both_platforms ios_fails_first) \<and>
   length (filter is_catch_entry (run_trace both_platforms ios_fails_first)) = 1 \<and>
   length (filter is_kill (run_trace both_platforms ios_fails_first)) = 1 \<and>
   run_flow both_platforms ios_fails_first = Exited 0"
proof -
  have g: "gates_pass ios_fails_first"
    by (simp add: gates_pass_def ios_fails_first_def all_well_def)
  have i: "run_ios both_platforms" and d: "run_android both_platforms"
    by (simp_all add: both_platforms_def)
  have r: "rejects (ios_runner ios_fails_first) \<or> rejects (android_runner ios_fails_first)"
    by (simp add: ios_fails_first_def all_well_def)
  have j: "fan_out_join both_platforms ios_fails_first = Rejects 1 ''no simulator''"
    by (simp add: fan_defs both_platforms_def ios_fails_first_def all_well_def)
  show ?thesis
    using fan_out_fails_fast [OF g i d r] j
    by (simp add: both_platforms_def ios_fails_first_def all_well_def)
qed

text \<open>
  C1 as stated has every launched branch settled before cleanup. With iOS failing at
  instant 1 and Android due to finish at instant 5, the packager is killed and the process
  exits while Android, which was launched, has not settled.
\<close>

theorem sibling_not_awaited_counterexample:
  "gates_pass ios_fails_first \<and>
   run_ios both_platforms \<and> run_android both_platforms \<and>
   ios_runner ios_fails_first = Rejects 1 ''no simulator'' \<and>
   android_runner ios_fails_first = Fulfils 5 \<and>
   list_ex is_kill (run_trace both_platforms ios_fails_first) \<and>
   \<not> settled_before_cleanup Android (run_trace both_platforms ios_fails_first)"
proof -
  have g: "gates_pass ios_fails_first"
    by (simp add: gates_pass_def ios_fails_first_def all_well_def)
  have j: "fan_out_join both_platforms ios_fails_first = Rejects 1 ''no simulator''"
    by (simp add: fan_defs both_platforms_def ios_fails_first_def all_well_def)
  have "\<not> settles_by 1 (runner ios_fails_first Android)"
    by (simp add: runner_def ios_fails_first_def all_well_def)
  then have "\<not> settled_before_cleanup Android (run_trace both_platforms ios_fails_first)"
    unfolding settled_before_cleanup_rejected [OF g j] by simp
  moreover have "list_ex is_kill (run_trace both_platforms ios_fails_first)"
    using g j
    by (simp add: run_trace_gates_pass list_ex_filter filter_pieces both_platforms_def
        ios_fails_first_def all_well_def)
  moreover have "ios_runner ios_fails_first = Rejects 1 ''no simulator''"
    and "android_runner ios_fails_first = Fulfils 5"
    by (simp_all add: ios_fails_first_def all_well_def)
  moreover have "run_ios both_platforms" and "run_android both_platforms"
    by (simp_all add: both_platforms_def)
  ultimately show ?thesis
    using g by blast
qed

subsection \<open>The promise of \<open>run\<close>\<close>

text \<open>
  C10. For every argument record and every behaviour of the collaborators, \<open>run\<close> does not
  throw to its caller and its promise is not rejected. Whatever the body of the \<open>try\<close>
  throws is handled by the top-level \<open>catch\<close>: from the state the body left, the run logs
  that error, does its cleanup (the \<open>kill\<close>, with its own log when it throws, if
  \<open>packagerProcess\<close> is a handle with a \<open>kill\<close> function; a log line that there is no
  process to stop otherwise) and ends the process with \<open>process.exit(0)\<close>. When the body
  does not throw, the \<open>catch\<close> is not entered and the run is the body.
\<close>

theorem run_never_rejects:
  "\<not> is_thrown (run_flow a e) \<and>
   (\<forall>x st. try_body a e init = (Thrown x, st) \<longrightarrow>
      run a e =
        (Exited 0,
         st\<lparr>trace := trace st @ [LogError ''An error occurred:'' (Some x)] @
                          cleanup e (packagerProcess st) @ [ProcessExit 0]\<rparr>) \<and>
      list_ex is_kill (cleanup e (packagerProcess st)) = (packagerProcess st = Process)) \<and>
   (\<not> reaches_catch a e \<longrightarrow>
      run a e = try_body a e init \<and> \<not> list_ex is_catch_entry (run_trace a e))"
proof -
  have never: "\<not> is_thrown (run_flow a e)"
    by (cases "try_body a e init"; cases "fst (try_body a e init)")
       (simp_all add: run_flow_def run_unfold catch_block_exits)
  have caught: "run a e =
        (Exited 0,
         st\<lparr>trace := trace st @ [LogError ''An error occurred:'' (Some x)] @
                          cleanup e (packagerProcess st) @ [ProcessExit 0]\<rparr>) \<and>
      list_ex is_kill (cleanup e (packagerProcess st)) = (packagerProcess st = Process)"
    if "try_body a e init = (Thrown x, st)" for x st
    using that by (simp add: run_unfold catch_block_exits cleanup_def split: call.split)
  have body: "run a e = try_body a e init" if "\<not> reaches_catch a e"
    using that
    by (cases "try_body a e init"; cases "fst (try_body a e init)")
       (simp_all add: reaches_catch_def run_unfold)
  have quiet: "\<not> list_ex is_catch_entry (run_trace a e)" if n: "\<not> reaches_catch a e"
  proof (cases e rule: gate_cases)
    case (validator_throws x)
    with n show ?thesis by (simp add: reaches_catch_cases)
  next
    case (generator_throws x)
    with n show ?thesis by (simp add: reaches_catch_cases)
  next
    case (probe_rejected x)
    with n show ?thesis by (simp add: reaches_catch_cases)
  next
    case probe_pending
    then show ?thesis by (simp add: run_trace_def run_probe_pending prelude_def)
  next
    case port_in_use
    then show ?thesis
      by (simp add: run_trace_def run_port_in_use prelude_def port_in_use_message_def)
  next
    case gates_pass
    with n have "\<not> rejects (fan_out_join a e)" by (simp add: reaches_catch_cases)
    with gates_pass show ?thesis
      by (simp add: run_trace_def run_join_not_rejected list_ex_filter filter_pieces)
  qed
  show ?thesis
    using never caught body quiet by blast
qed

theorem run_never_rejects_witness:
  "try_body both_platforms ios_fails_first init =
     (Thrown ''no simulator'',
      \<lparr>trace = prelude both_platforms ios_fails_first @
                branch_start both_platforms ios_fails_first @
                fan_out_seen both_platforms ios_fails_first,
        packagerProcess = Process\<rparr>) \<and>
   run both_platforms ios_fails_first =
     (Exited 0,
      \<lparr>trace = prelude both_platforms ios_fails_first @
                branch_start both_platforms ios_fails_first @
                fan_out_seen both_platforms ios_fails_first @
                [LogError ''An error occurred:'' (Some ''no simulator''),
                 LogInfo ''Stopping the Metro Bundler process...'',
                 Kill,
                 ProcessExit 0],
        packagerProcess = Process\<rparr>) \<and>
   \<not> is_thrown (run_flow both_platforms ios_fails_first)"
proof -
  have g: "gates_pass ios_fails_first"
    by (simp add: gates_pass_def ios_fails_first_def all_well_def)
  have j: "fan_out_join both_platforms ios_fails_first = Rejects 1 ''no simulator''"
    by (simp add: fan_defs both_platforms_def ios_fails_first_def all_well_def)
  have h: "(if no_packager both_platforms then Undefined else spawned ios_fails_first) = Process"
    by (simp add: both_platforms_def ios_fails_first_def all_well_def)
  have k: "kill ios_fails_first = Returned"
    by (simp add: ios_fails_first_def all_well_def)
  have t: "try_body both_platforms ios_fails_first init =
     (Thrown ''no simulator'',
      \<lparr>trace = prelude both_platforms ios_fails_first @
                branch_start both_platforms ios_fails_first @
                fan_out_seen both_platforms ios_fails_first,
        packagerProcess = Process\<rparr>)"
    unfolding try_body_gates_pass [OF g] j h by (simp add: await_def)
  from run_never_rejects [of both_platforms ios_fails_first] t
  have "run both_platforms ios_fails_first =
      (Exited 0,
       \<lparr>trace = prelude both_platforms ios_fails_first @
                 branch_start both_platforms ios_fails_first @
                 fan_out_seen both_platforms ios_fails_first,
         packagerProcess = Process\<rparr>
       \<lparr>trace := trace \<lparr>trace = prelude both_platforms ios_fails_first @
                 branch_start both_platforms ios_fails_first @
                 fan_out_seen both_platforms ios_fails_first,
         packagerProcess = Process\<rparr> @
          [LogError ''An error occurred:'' (Some ''no simulator'')] @
          cleanup ios_fails_first (packagerProcess \<lparr>trace = prelude both_platforms ios_fails_first @
                 branch_start both_platforms ios_fails_first @
                 fan_out_seen both_platforms ios_fails_first,
         packagerProcess = Process\<rparr>) @ [ProcessExit 0]\<rparr>)"
    and n: "\<not> is_thrown (run_flow both_platforms ios_fails_first)"
    by blast+
  then have "run both_platforms ios_fails_first =
     (Exited 0,
      \<lparr>trace = prelude both_platforms ios_fails_first @
                branch_start both_platforms ios_fails_first @
                fan_out_seen both_platforms ios_fails_first @
                [LogError ''An error occurred:'' (Some ''no simulator''),
                 LogInfo ''Stopping the Metro Bundler process...'',
                 Kill,
                 ProcessExit 0],
        packagerProcess = Process\<rparr>)"
    by (simp add: cleanup_def k)
  with t n show ?thesis by simp
qed

end
